theory Spec2Isabelle
  imports Complex_Main
begin

section \<open>The falling, bouncing and rolling cube (App.tsx)\<close>

text \<open>
  The component keeps its animation state in variables captured by the closures
  \<open>rollCube\<close>, \<open>animate\<close> and \<open>handleResize\<close>. The model collects these variables in one
  record and turns every closure into a function from state to state. JavaScript numbers
  are modelled as real numbers, \<open>Math.PI\<close> as \<open>pi\<close>: every statement below is a statement
  of exact real arithmetic and says nothing about rounding.
\<close>

subsection \<open>Data\<close>

text \<open>A \<open>THREE.Vector3\<close> or \<open>THREE.Euler\<close>: the three components \<open>x\<close>, \<open>y\<close>, \<open>z\<close>.\<close>

record vec3 =
  vx :: real
  vy :: real
  vz :: real

text \<open>The object \<open>{ dx, dz, angle }\<close> stored in \<open>rolling\<close>; \<open>null\<close> is \<open>None\<close>.\<close>

record roll =
  dx :: real
  dz :: real
  angle :: real

record state =
  time :: real
  landed :: bool
  rolling :: "roll option"
  cubeX :: real
  cubeZ :: real
  position :: vec3
  rotation :: vec3
  aspect :: real
  rendererSize :: "nat \<times> nat"

subsection \<open>Constants\<close>

definition largeCubeSize :: real where
  "largeCubeSize = 3"

definition cubeSize :: real where
  "cubeSize = 1"

definition fallDuration :: real where
  "fallDuration = 1.5"

definition startY :: real where
  "startY = 8"

definition targetY :: real where
  "targetY = cubeSize / 2"

definition rollSpeed :: real where
  "rollSpeed = pi / 20"

definition maxAngle :: real where
  "maxAngle = pi / 2"

subsection \<open>Easing functions\<close>

text \<open>
  In the source each later branch first assigns \<open>t -= c / d1\<close> and then multiplies
  \<open>n1\<close> by the new \<open>t\<close> twice; the local \<open>u\<close> is that new value.
\<close>

definition easeOutBounce :: "real \<Rightarrow> real" where
  "easeOutBounce t =
     (let n1 = 7.5625; d1 = 2.75 in
      if t < 1 / d1 then n1 * t * t
      else if t < 2 / d1 then (let u = t - 1.5 / d1 in n1 * u * u + 0.75)
      else if t < 2.5 / d1 then (let u = t - 2.25 / d1 in n1 * u * u + 0.9375)
      else (let u = t - 2.625 / d1 in n1 * u * u + 0.984375))"

definition easeOutQuad :: "real \<Rightarrow> real" where
  "easeOutQuad t = 1 - (1 - t) * (1 - t)"

subsection \<open>Initial state\<close>

text \<open>
  The state right after the set-up code, before the first call of \<open>animate\<close>. The
  arguments are \<open>clientWidth\<close> and \<open>clientHeight\<close> of the host element at that moment.
\<close>

definition init :: "nat \<Rightarrow> nat \<Rightarrow> state" where
  "init w h =
     \<lparr> time = 0, landed = False, rolling = None,
       cubeX = 0, cubeZ = - largeCubeSize / 3,
       position = \<lparr> vx = 0, vy = 8, vz = - largeCubeSize / 3 \<rparr>,
       rotation = \<lparr> vx = 0, vy = 0, vz = 0 \<rparr>,
       aspect = real w / real h,
       rendererSize = (w, h) \<rparr>"

subsection \<open>Roll requests\<close>

definition rollCube :: "real \<Rightarrow> real \<Rightarrow> state \<Rightarrow> state" where
  "rollCube dx0 dz0 s =
     (if \<not> landed s \<or> rolling s \<noteq> None then s
      else
        let newX = cubeX s + dx0 * cubeSize;
            newZ = cubeZ s + dz0 * cubeSize
        in if \<bar>newX\<bar> > largeCubeSize / 2 - cubeSize / 2 \<or>
              \<bar>newZ\<bar> > largeCubeSize / 2 - cubeSize / 2
           then s
           else s\<lparr>rolling := Some \<lparr> dx = dx0, dz = dz0, angle = 0 \<rparr>\<rparr>)"

text \<open>The \<open>keydown\<close> listener: four independent tests of \<open>e.key\<close>, in this order.\<close>

definition keydown :: "string \<Rightarrow> state \<Rightarrow> state" where
  "keydown k s =
     (let s1 = (if k = ''w'' then rollCube 0 (- 1) s else s);
          s2 = (if k = ''s'' then rollCube 0 1 s1 else s1);
          s3 = (if k = ''a'' then rollCube (- 1) 0 s2 else s2);
          s4 = (if k = ''d'' then rollCube 1 0 s3 else s3)
      in s4)"

subsection \<open>The frame update\<close>

text \<open>
  The block \<open>// Falling\<close> of \<open>animate\<close>. The source adds \<open>1 / 60\<close> to a double in every
  frame; here the sum is a real number. The number of the frame in which the sum first
  reaches \<open>fallDuration\<close> depends on how the additions are rounded, so no claim below
  names it.
\<close>

definition animate_falling :: "state \<Rightarrow> state" where
  "animate_falling s =
     (if \<not> landed s then
        let s1 = s\<lparr>time := time s + 1 / 60\<rparr> in
        if time s1 < fallDuration then
          let progress = time s1 / fallDuration;
              eased = easeOutBounce progress
          in s1\<lparr>position := (position s1)\<lparr>vy := startY - (startY - targetY) * eased\<rparr>,
                rotation := (rotation s1)\<lparr>vx := sin (time s1 * 3) * 0.05,
                                           vz := cos (time s1 * 2) * 0.05\<rparr>\<rparr>
        else
          s1\<lparr>position := (position s1)\<lparr>vy := targetY\<rparr>,
             rotation := \<lparr> vx = 0, vy = 0, vz = 0 \<rparr>,
             landed := True\<rparr>
      else s)"

text \<open>
  The block \<open>// Rolling\<close> of \<open>animate\<close>, in two parts. \<open>roll_pose\<close> is the part from
  the computation of \<open>theta\<close> to the assignment of the rotation: it takes the rolling
  object \<open>r1\<close> after \<open>rolling.angle += rollSpeed\<close> and gives the state as it is right
  before the test \<open>rolling.angle >= maxAngle\<close>. \<open>animate_rolling\<close> is the whole block:
  the increment, the pose and the snap to the grid.
\<close>

definition roll_pose :: "roll \<Rightarrow> state \<Rightarrow> state" where
  "roll_pose r1 s =
     (let theta0 = min (angle r1) maxAngle;
          progress = theta0 / maxAngle;
          theta = theta0 * easeOutQuad progress;
          pivotOffset = cubeSize / 2;
          cosTheta = cos theta;
          sinTheta = sin theta;
          offsetX = dx r1 * pivotOffset * (1 - cosTheta);
          offsetY = pivotOffset * sinTheta;
          offsetZ = dz r1 * pivotOffset * (1 - cosTheta);
          s1 = s\<lparr>rolling := Some r1,
                 position := \<lparr> vx = cubeX s + offsetX,
                               vy = targetY + offsetY,
                               vz = cubeZ s + offsetZ \<rparr>\<rparr>
      in if dx r1 \<noteq> 0 then s1\<lparr>rotation := (rotation s1)\<lparr>vz := - theta * dx r1\<rparr>\<rparr>
         else if dz r1 \<noteq> 0 then s1\<lparr>rotation := (rotation s1)\<lparr>vx := theta * dz r1\<rparr>\<rparr>
         else s1)"

definition animate_rolling :: "state \<Rightarrow> state" where
  "animate_rolling s =
     (case rolling s of
        None \<Rightarrow> s
      | Some r \<Rightarrow>
          let r1 = r\<lparr>angle := angle r + rollSpeed\<rparr>;
              s2 = roll_pose r1 s
          in if angle r1 \<ge> maxAngle then
               let s3 = s2\<lparr>cubeX := cubeX s2 + dx r1 * cubeSize\<rparr>;
                   s4 = s3\<lparr>cubeZ := cubeZ s3 + dz r1 * cubeSize\<rparr>
               in s4\<lparr>position := \<lparr> vx = cubeX s4, vy = targetY, vz = cubeZ s4 \<rparr>,
                     rotation := \<lparr> vx = 0, vy = 0, vz = 0 \<rparr>,
                     rolling := None\<rparr>
             else s2)"

text \<open>One call of \<open>animate\<close>; rendering does not change the state.\<close>

definition animate :: "state \<Rightarrow> state" where
  "animate s = animate_rolling (animate_falling s)"

subsection \<open>Resize\<close>

text \<open>
  The argument is \<open>mountRef.current\<close>: \<open>None\<close> for \<open>null\<close>, otherwise the host
  element's \<open>clientWidth\<close> and \<open>clientHeight\<close>. \<open>renderer.setSize\<close> is recorded as
  the size it was given.
\<close>

definition handleResize :: "(nat \<times> nat) option \<Rightarrow> state \<Rightarrow> state" where
  "handleResize mount s =
     (case mount of
        None \<Rightarrow> s
      | Some (w, h) \<Rightarrow> s\<lparr>aspect := real w / real h, rendererSize := (w, h)\<rparr>)"

subsection \<open>Events and runs\<close>

datatype event = Frame | KeyDown string | Resize "(nat \<times> nat) option"

fun step :: "event \<Rightarrow> state \<Rightarrow> state" where
  "step Frame s = animate s"
| "step (KeyDown k) s = keydown k s"
| "step (Resize mount) s = handleResize mount s"

text \<open>The state after the events \<open>es\<close>, the earliest first.\<close>

definition run :: "event list \<Rightarrow> state \<Rightarrow> state" where
  "run es s = foldl (\<lambda>s e. step e s) s es"

definition frames :: "event list \<Rightarrow> nat" where
  "frames es = length (filter (\<lambda>e. e = Frame) es)"

section \<open>The spinning cube (second variant)\<close>

record spin_state =
  spin_rotation :: vec3
  spin_aspect :: real
  spin_rendererSize :: "nat \<times> nat"

definition spin_animate :: "spin_state \<Rightarrow> spin_state" where
  "spin_animate s =
     (let s1 = s\<lparr>spin_rotation := (spin_rotation s)\<lparr>vx := vx (spin_rotation s) + 0.01\<rparr>\<rparr>
      in s1\<lparr>spin_rotation := (spin_rotation s1)\<lparr>vy := vy (spin_rotation s1) + 0.01\<rparr>\<rparr>)"

definition spin_handleResize :: "(nat \<times> nat) option \<Rightarrow> spin_state \<Rightarrow> spin_state" where
  "spin_handleResize mount s =
     (case mount of
        None \<Rightarrow> s
      | Some (width, height) \<Rightarrow>
          let s1 = s\<lparr>spin_rendererSize := (width, height)\<rparr>
          in s1\<lparr>spin_aspect := real width / real height\<rparr>)"

subsection \<open>The grid invariant\<close>

text \<open>Both grid coordinates are \<open>- 1\<close>, \<open>0\<close> or \<open>1\<close>, and a roll in
  progress has a direction with components among \<open>- 1\<close>, \<open>0\<close>, \<open>1\<close> whose destination cell
  is on the platform as well.\<close>

definition cell :: "real \<Rightarrow> bool" where
  "cell c = (c = - 1 \<or> c = 0 \<or> c = 1)"

definition on_grid :: "state \<Rightarrow> bool" where
  "on_grid s =
     (cell (cubeX s) \<and> cell (cubeZ s) \<and>
      (case rolling s of
         None \<Rightarrow> True
       | Some r \<Rightarrow> cell (dx r) \<and> cell (dz r) \<and>
                   cell (cubeX s + dx r * cubeSize) \<and> cell (cubeZ s + dz r * cubeSize)))"

section \<open>Basic facts about the operations\<close>

lemma animate_falling_landed: "landed s \<Longrightarrow> animate_falling s = s"
  by (simp add: animate_falling_def)

lemma animate_falling_fields:
  "rolling (animate_falling s) = rolling s"
  "cubeX (animate_falling s) = cubeX s"
  "cubeZ (animate_falling s) = cubeZ s"
  "aspect (animate_falling s) = aspect s"
  "rendererSize (animate_falling s) = rendererSize s"
  by (simp_all add: animate_falling_def Let_def)

lemma animate_falling_time:
  "time (animate_falling s) = (if landed s then time s else time s + 1 / 60)"
  by (simp add: animate_falling_def Let_def)

lemma animate_falling_landed_iff:
  "landed (animate_falling s) = (landed s \<or> fallDuration \<le> time s + 1 / 60)"
  by (auto simp add: animate_falling_def Let_def)

lemma animate_falling_lands:
  "\<not> landed s \<Longrightarrow> fallDuration \<le> time s + 1 / 60 \<Longrightarrow>
   vy (position (animate_falling s)) = targetY \<and>
   rotation (animate_falling s) = \<lparr> vx = 0, vy = 0, vz = 0 \<rparr>"
  by (simp add: animate_falling_def Let_def)

lemma animate_rolling_None: "rolling s = None \<Longrightarrow> animate_rolling s = s"
  by (simp add: animate_rolling_def)

lemma animate_rolling_fields:
  "time (animate_rolling s) = time s"
  "landed (animate_rolling s) = landed s"
  "aspect (animate_rolling s) = aspect s"
  "rendererSize (animate_rolling s) = rendererSize s"
  by (simp_all add: animate_rolling_def roll_pose_def Let_def split: option.splits)

lemma animate_rolling_continue:
  assumes "rolling s = Some r" and "angle r + rollSpeed < maxAngle"
  shows "rolling (animate_rolling s) = Some (r\<lparr>angle := angle r + rollSpeed\<rparr>)"
    and "cubeX (animate_rolling s) = cubeX s"
    and "cubeZ (animate_rolling s) = cubeZ s"
  using assms by (simp_all add: animate_rolling_def roll_pose_def Let_def)

lemma animate_rolling_complete:
  assumes "rolling s = Some r" and "maxAngle \<le> angle r + rollSpeed"
  shows "rolling (animate_rolling s) = None"
    and "cubeX (animate_rolling s) = cubeX s + dx r * cubeSize"
    and "cubeZ (animate_rolling s) = cubeZ s + dz r * cubeSize"
    and "position (animate_rolling s) =
           \<lparr> vx = cubeX s + dx r * cubeSize, vy = targetY, vz = cubeZ s + dz r * cubeSize \<rparr>"
    and "rotation (animate_rolling s) = \<lparr> vx = 0, vy = 0, vz = 0 \<rparr>"
  using assms by (simp_all add: animate_rolling_def roll_pose_def Let_def)

lemma animate_time:
  "time (animate s) = (if landed s then time s else time s + 1 / 60)"
  by (simp add: animate_def animate_rolling_fields animate_falling_time)

lemma animate_landed:
  "landed (animate s) = (landed s \<or> fallDuration \<le> time s + 1 / 60)"
  by (simp add: animate_def animate_rolling_fields animate_falling_landed_iff)

lemma animate_view:
  "aspect (animate s) = aspect s" "rendererSize (animate s) = rendererSize s"
  by (simp_all add: animate_def animate_rolling_fields animate_falling_fields)

lemma animate_continue:
  assumes "rolling s = Some r" and "angle r + rollSpeed < maxAngle"
  shows "rolling (animate s) = Some (r\<lparr>angle := angle r + rollSpeed\<rparr>)"
    and "cubeX (animate s) = cubeX s"
    and "cubeZ (animate s) = cubeZ s"
  using assms
  by (simp_all add: animate_def animate_rolling_continue animate_falling_fields)

lemma animate_complete:
  assumes "rolling s = Some r" and "maxAngle \<le> angle r + rollSpeed"
  shows "rolling (animate s) = None"
    and "cubeX (animate s) = cubeX s + dx r * cubeSize"
    and "cubeZ (animate s) = cubeZ s + dz r * cubeSize"
    and "position (animate s) =
           \<lparr> vx = cubeX s + dx r * cubeSize, vy = targetY, vz = cubeZ s + dz r * cubeSize \<rparr>"
    and "rotation (animate s) = \<lparr> vx = 0, vy = 0, vz = 0 \<rparr>"
  using assms
  by (simp_all add: animate_def animate_rolling_complete animate_falling_fields)

lemma animate_idle:
  "rolling s = None \<Longrightarrow> rolling (animate s) = None \<and> cubeX (animate s) = cubeX s \<and> cubeZ (animate s) = cubeZ s"
  by (simp add: animate_def animate_rolling_None animate_falling_fields)

lemma rollCube_fields:
  "time (rollCube a b s) = time s"
  "landed (rollCube a b s) = landed s"
  "cubeX (rollCube a b s) = cubeX s"
  "cubeZ (rollCube a b s) = cubeZ s"
  "position (rollCube a b s) = position s"
  "rotation (rollCube a b s) = rotation s"
  "aspect (rollCube a b s) = aspect s"
  "rendererSize (rollCube a b s) = rendererSize s"
  by (simp_all add: rollCube_def Let_def)

lemma rollCube_busy: "rolling s = Some r \<Longrightarrow> rollCube a b s = s"
  by (simp add: rollCube_def)

lemma rollCube_not_landed: "\<not> landed s \<Longrightarrow> rollCube a b s = s"
  by (simp add: rollCube_def)

lemma keydown_fields:
  "time (keydown k s) = time s"
  "landed (keydown k s) = landed s"
  "cubeX (keydown k s) = cubeX s"
  "cubeZ (keydown k s) = cubeZ s"
  "position (keydown k s) = position s"
  "rotation (keydown k s) = rotation s"
  "aspect (keydown k s) = aspect s"
  "rendererSize (keydown k s) = rendererSize s"
  by (simp_all add: keydown_def Let_def rollCube_fields)

lemma keydown_busy: "rolling s = Some r \<Longrightarrow> keydown k s = s"
  by (simp add: keydown_def Let_def rollCube_busy)

lemma keydown_not_landed: "\<not> landed s \<Longrightarrow> keydown k s = s"
  by (simp add: keydown_def Let_def rollCube_not_landed)

lemma handleResize_fields:
  "time (handleResize m s) = time s"
  "landed (handleResize m s) = landed s"
  "rolling (handleResize m s) = rolling s"
  "cubeX (handleResize m s) = cubeX s"
  "cubeZ (handleResize m s) = cubeZ s"
  "position (handleResize m s) = position s"
  "rotation (handleResize m s) = rotation s"
  by (simp_all add: handleResize_def split: option.splits prod.splits)

lemma run_Nil: "run [] s = s"
  by (simp add: run_def)

lemma run_snoc: "run (es @ [e]) s = step e (run es s)"
  by (simp add: run_def)

lemma run_append: "run (es @ fs) s = run fs (run es s)"
  by (simp add: run_def)

lemma frames_Nil: "frames [] = 0"
  by (simp add: frames_def)

lemma frames_snoc: "frames (es @ [e]) = (if e = Frame then Suc (frames es) else frames es)"
  by (simp add: frames_def)

lemma step_time_landed:
  "e \<noteq> Frame \<Longrightarrow> time (step e s) = time s \<and> landed (step e s) = landed s"
  by (cases e) (simp_all add: keydown_fields handleResize_fields)

lemma run_time_landed:
  "time (run es (init w h)) = real (min (frames es) 90) / 60 \<and>
   landed (run es (init w h)) = (90 \<le> frames es)"
proof (induction es rule: rev_induct)
  case Nil
  show ?case by (simp add: run_Nil frames_Nil init_def)
next
  case (snoc e es)
  show ?case
  proof (cases "e = Frame")
    case False
    with snoc show ?thesis
      by (simp add: run_snoc frames_snoc step_time_landed)
  next
    case True
    show ?thesis
    proof (cases "90 \<le> frames es")
      case True
      with snoc \<open>e = Frame\<close> show ?thesis
        by (simp add: run_snoc frames_snoc animate_time animate_landed)
    next
      case False
      then have "min (frames es) 90 = frames es" by simp
      with snoc \<open>e = Frame\<close> False show ?thesis
        by (auto simp add: run_snoc frames_snoc animate_time animate_landed fallDuration_def
            field_simps min_def)
    qed
  qed
qed

lemma rollCube_accept:
  "landed s \<Longrightarrow> rolling s = None \<Longrightarrow>
   \<bar>cubeX s + a * cubeSize\<bar> \<le> largeCubeSize / 2 - cubeSize / 2 \<Longrightarrow>
   \<bar>cubeZ s + b * cubeSize\<bar> \<le> largeCubeSize / 2 - cubeSize / 2 \<Longrightarrow>
   rollCube a b s = s\<lparr>rolling := Some \<lparr> dx = a, dz = b, angle = 0 \<rparr>\<rparr>"
  by (simp add: rollCube_def Let_def)

lemma rollCube_out_of_bounds:
  "largeCubeSize / 2 - cubeSize / 2 < \<bar>cubeX s + a * cubeSize\<bar> \<or>
   largeCubeSize / 2 - cubeSize / 2 < \<bar>cubeZ s + b * cubeSize\<bar> \<Longrightarrow>
   rollCube a b s = s"
  by (auto simp add: rollCube_def Let_def)

lemma rollCube_cases:
  "rollCube a b s =
     (if landed s \<and> rolling s = None \<and>
         \<bar>cubeX s + a * cubeSize\<bar> \<le> largeCubeSize / 2 - cubeSize / 2 \<and>
         \<bar>cubeZ s + b * cubeSize\<bar> \<le> largeCubeSize / 2 - cubeSize / 2
      then s\<lparr>rolling := Some \<lparr> dx = a, dz = b, angle = 0 \<rparr>\<rparr> else s)"
  by (auto simp add: rollCube_def Let_def)

text \<open>The pose written by a frame that advances a roll without finishing it.\<close>

lemma animate_rolling_pose:
  assumes "rolling s = Some r" and "angle r + rollSpeed < maxAngle"
  shows "position (animate_rolling s) =
           \<lparr> vx = cubeX s + dx r * (cubeSize / 2) *
                    (1 - cos (min (angle r + rollSpeed) maxAngle *
                              easeOutQuad (min (angle r + rollSpeed) maxAngle / maxAngle))),
             vy = targetY + cubeSize / 2 *
                    sin (min (angle r + rollSpeed) maxAngle *
                         easeOutQuad (min (angle r + rollSpeed) maxAngle / maxAngle)),
             vz = cubeZ s + dz r * (cubeSize / 2) *
                    (1 - cos (min (angle r + rollSpeed) maxAngle *
                              easeOutQuad (min (angle r + rollSpeed) maxAngle / maxAngle))) \<rparr>"
    and "dx r \<noteq> 0 \<Longrightarrow> vz (rotation (animate_rolling s)) =
           - (min (angle r + rollSpeed) maxAngle *
              easeOutQuad (min (angle r + rollSpeed) maxAngle / maxAngle)) * dx r"
    and "dx r = 0 \<Longrightarrow> dz r \<noteq> 0 \<Longrightarrow> vx (rotation (animate_rolling s)) =
           min (angle r + rollSpeed) maxAngle *
              easeOutQuad (min (angle r + rollSpeed) maxAngle / maxAngle) * dz r"
  using assms by (simp_all add: animate_rolling_def roll_pose_def Let_def)

text \<open>The rolling block in terms of the pose it computes.\<close>

lemma roll_pose_fields:
  "rolling (roll_pose r1 s) = Some r1"
  "cubeX (roll_pose r1 s) = cubeX s"
  "cubeZ (roll_pose r1 s) = cubeZ s"
  "position (roll_pose r1 s) =
     \<lparr> vx = cubeX s + dx r1 * (cubeSize / 2) *
              (1 - cos (min (angle r1) maxAngle * easeOutQuad (min (angle r1) maxAngle / maxAngle))),
       vy = targetY + cubeSize / 2 *
              sin (min (angle r1) maxAngle * easeOutQuad (min (angle r1) maxAngle / maxAngle)),
       vz = cubeZ s + dz r1 * (cubeSize / 2) *
              (1 - cos (min (angle r1) maxAngle * easeOutQuad (min (angle r1) maxAngle / maxAngle))) \<rparr>"
  by (simp_all add: roll_pose_def Let_def)

lemma roll_pose_rotation:
  "dx r1 \<noteq> 0 \<Longrightarrow> vz (rotation (roll_pose r1 s)) =
     - (min (angle r1) maxAngle * easeOutQuad (min (angle r1) maxAngle / maxAngle)) * dx r1"
  "dx r1 = 0 \<Longrightarrow> dz r1 \<noteq> 0 \<Longrightarrow> vx (rotation (roll_pose r1 s)) =
     min (angle r1) maxAngle * easeOutQuad (min (angle r1) maxAngle / maxAngle) * dz r1"
  by (simp_all add: roll_pose_def Let_def)

lemma animate_rolling_Some:
  assumes "rolling s = Some r"
  shows "animate_rolling s =
     (if maxAngle \<le> angle r + rollSpeed
      then (roll_pose (r\<lparr>angle := angle r + rollSpeed\<rparr>) s)
             \<lparr>cubeX := cubeX s + dx r * cubeSize, cubeZ := cubeZ s + dz r * cubeSize,
              position := \<lparr> vx = cubeX s + dx r * cubeSize, vy = targetY,
                            vz = cubeZ s + dz r * cubeSize \<rparr>,
              rotation := \<lparr> vx = 0, vy = 0, vz = 0 \<rparr>,
              rolling := None\<rparr>
      else roll_pose (r\<lparr>angle := angle r + rollSpeed\<rparr>) s)"
  using assms by (simp add: animate_rolling_def Let_def roll_pose_fields)


lemma rollCube_idle_after: "rolling (rollCube a b s) = None \<Longrightarrow> rolling s = None"
  by (simp add: rollCube_cases split: if_splits)

lemma keydown_idle_after: "rolling (keydown k s) = None \<Longrightarrow> rolling s = None"
  by (auto simp add: keydown_def Let_def split: if_splits dest: rollCube_idle_after)

lemma keydown_cases:
  "keydown k s =
     (if k = ''w'' then rollCube 0 (- 1) s
      else if k = ''s'' then rollCube 0 1 s
      else if k = ''a'' then rollCube (- 1) 0 s
      else if k = ''d'' then rollCube 1 0 s
      else s)"
  by (simp add: keydown_def Let_def)

section \<open>Runs: frames, key presses and resizes in any order\<close>

lemma frames_replicate: "frames (replicate n Frame) = n"
  by (simp add: frames_def)

lemma run_replicate_Suc: "run (replicate (Suc n) e) s = step e (run (replicate n e) s)"
  by (simp only: replicate_Suc replicate_append_same [symmetric] run_snoc)

lemma step_busy:
  "e \<noteq> Frame \<Longrightarrow> rolling s = Some r \<Longrightarrow>
   rolling (step e s) = Some r \<and> cubeX (step e s) = cubeX s \<and> cubeZ (step e s) = cubeZ s"
  by (cases e) (simp_all add: keydown_busy handleResize_fields)

lemma rollSpeed_steps:
  "(real n * rollSpeed + rollSpeed < maxAngle) = (Suc n < 10)"
proof -
  have a: "real n * rollSpeed + rollSpeed = real (Suc n) * (pi / 20)"
    by (simp add: rollSpeed_def algebra_simps)
  have b: "maxAngle = 10 * (pi / 20)"
    by (simp add: maxAngle_def)
  have "(real n * rollSpeed + rollSpeed < maxAngle) = (real (Suc n) * (pi / 20) < 10 * (pi / 20))"
    by (simp only: a b)
  also have "\<dots> = (real (Suc n) < 10)"
    by (rule mult_less_cancel_right_pos) simp
  also have "\<dots> = (Suc n < 10)"
    by (metis of_nat_less_iff of_nat_numeral)
  finally show ?thesis .
qed

text \<open>While fewer than ten frames have passed since a roll started at angle 0, the roll
  is still in progress, its angle is the number of frames times \<open>rollSpeed\<close>, and the grid
  position has not moved; key presses and resizes in between change nothing of this.\<close>

lemma roll_progress:
  assumes "rolling s = Some r" and "angle r = 0"
  shows "frames es < 10 \<Longrightarrow>
         rolling (run es s) = Some (r\<lparr>angle := real (frames es) * rollSpeed\<rparr>) \<and>
         cubeX (run es s) = cubeX s \<and> cubeZ (run es s) = cubeZ s"
proof (induction es rule: rev_induct)
  case Nil
  show ?case using assms by (simp add: run_Nil frames_Nil)
next
  case (snoc e es)
  show ?case
  proof (cases "e = Frame")
    case False
    with snoc show ?thesis
      by (simp add: run_snoc frames_snoc step_busy)
  next
    case True
    with snoc.prems have n: "Suc (frames es) < 10"
      by (simp add: frames_snoc)
    with snoc.IH have ih: "rolling (run es s) = Some (r\<lparr>angle := real (frames es) * rollSpeed\<rparr>)"
      "cubeX (run es s) = cubeX s" "cubeZ (run es s) = cubeZ s"
      by simp_all
    have "angle (r\<lparr>angle := real (frames es) * rollSpeed\<rparr>) + rollSpeed < maxAngle"
      using n by (simp add: rollSpeed_steps)
    from animate_continue [OF ih(1) this] ih(2,3) True show ?thesis
      by (simp add: run_snoc frames_snoc algebra_simps)
  qed
qed

lemma roll_finish:
  assumes "rolling s = Some r" and "angle r = 0" and "frames es = 9"
  shows "rolling (run (es @ [Frame]) s) = None"
    and "cubeX (run (es @ [Frame]) s) = cubeX s + dx r * cubeSize"
    and "cubeZ (run (es @ [Frame]) s) = cubeZ s + dz r * cubeSize"
    and "position (run (es @ [Frame]) s) =
           \<lparr> vx = cubeX s + dx r * cubeSize, vy = targetY, vz = cubeZ s + dz r * cubeSize \<rparr>"
    and "rotation (run (es @ [Frame]) s) = \<lparr> vx = 0, vy = 0, vz = 0 \<rparr>"
proof -
  have p: "rolling (run es s) = Some (r\<lparr>angle := real (frames es) * rollSpeed\<rparr>)"
    "cubeX (run es s) = cubeX s" "cubeZ (run es s) = cubeZ s"
    using roll_progress [OF assms(1,2), of es] assms(3) by simp_all
  have "\<not> (real (frames es) * rollSpeed + rollSpeed < maxAngle)"
    unfolding rollSpeed_steps using assms(3) by simp
  then have c: "maxAngle \<le> angle (r\<lparr>angle := real (frames es) * rollSpeed\<rparr>) + rollSpeed"
    by simp
  note fin = animate_complete [OF p(1) c]
  show "rolling (run (es @ [Frame]) s) = None"
    using fin(1) by (simp add: run_snoc)
  show "cubeX (run (es @ [Frame]) s) = cubeX s + dx r * cubeSize"
    using fin(2) p(2) by (simp add: run_snoc)
  show "cubeZ (run (es @ [Frame]) s) = cubeZ s + dz r * cubeSize"
    using fin(3) p(3) by (simp add: run_snoc)
  show "position (run (es @ [Frame]) s) =
           \<lparr> vx = cubeX s + dx r * cubeSize, vy = targetY, vz = cubeZ s + dz r * cubeSize \<rparr>"
    using fin(4) p(2,3) by (simp add: run_snoc)
  show "rotation (run (es @ [Frame]) s) = \<lparr> vx = 0, vy = 0, vz = 0 \<rparr>"
    using fin(5) by (simp add: run_snoc)
qed

text \<open>Frames alone, from the initial state: no roll starts and the grid position stays.\<close>

lemma run_frames_idle:
  "rolling (run (replicate n Frame) (init w h)) = None \<and>
   cubeX (run (replicate n Frame) (init w h)) = 0 \<and>
   cubeZ (run (replicate n Frame) (init w h)) = - 1"
proof (induction n)
  case 0
  show ?case by (simp add: run_Nil init_def largeCubeSize_def)
next
  case (Suc n)
  then show ?case
    using animate_idle [of "run (replicate n Frame) (init w h)"]
    by (simp add: run_replicate_Suc del: replicate_Suc)
qed

lemma run_frames_landed: "landed (run (replicate 100 Frame) (init w h))"
  by (simp add: run_time_landed frames_replicate)

text \<open>A reachable example: a hundred frames land the cube, then a roll to the left starts.\<close>

lemma run_frames_left_roll:
  "rollCube (- 1) 0 (run (replicate 100 Frame) (init w h)) =
     (run (replicate 100 Frame) (init w h))\<lparr>rolling := Some \<lparr> dx = - 1, dz = 0, angle = 0 \<rparr>\<rparr>"
  using run_frames_landed [of w h] run_frames_idle [of 100 w h]
  by (simp add: rollCube_accept cubeSize_def largeCubeSize_def)

lemma run_frames_mid_roll:
  assumes "n < 10"
  shows "rolling (run (replicate n Frame) (rollCube (- 1) 0 (run (replicate 100 Frame) (init w h))))
           = Some \<lparr> dx = - 1, dz = 0, angle = real n * rollSpeed \<rparr>"
    and "cubeX (run (replicate n Frame) (rollCube (- 1) 0 (run (replicate 100 Frame) (init w h)))) = 0"
    and "cubeZ (run (replicate n Frame) (rollCube (- 1) 0 (run (replicate 100 Frame) (init w h)))) = - 1"
    and "landed (run (replicate n Frame) (rollCube (- 1) 0 (run (replicate 100 Frame) (init w h))))"
proof -
  let ?L = "run (replicate 100 Frame) (init w h)"
  let ?r = "\<lparr> dx = - 1, dz = 0, angle = 0 \<rparr>"
  have r: "rolling (rollCube (- 1) 0 ?L) = Some ?r"
    by (simp add: run_frames_left_roll)
  have a: "angle ?r = 0"
    by simp
  have f: "frames (replicate n Frame) < 10"
    using assms by (simp add: frames_replicate)
  note p = roll_progress [OF r a f]
  show "rolling (run (replicate n Frame) (rollCube (- 1) 0 ?L))
           = Some \<lparr> dx = - 1, dz = 0, angle = real n * rollSpeed \<rparr>"
    using p by (simp add: frames_replicate)
  show "cubeX (run (replicate n Frame) (rollCube (- 1) 0 ?L)) = 0"
    using p run_frames_idle [of 100 w h] by (simp add: rollCube_fields)
  show "cubeZ (run (replicate n Frame) (rollCube (- 1) 0 ?L)) = - 1"
    using p run_frames_idle [of 100 w h] by (simp add: rollCube_fields)
  have "landed (run es (rollCube (- 1) 0 ?L))" for es
  proof (induction es rule: rev_induct)
    case Nil
    show ?case by (simp add: run_Nil rollCube_fields run_frames_landed)
  next
    case (snoc e es)
    then show ?case
      by (cases "e = Frame") (simp_all add: run_snoc step_time_landed animate_landed)
  qed
  then show "landed (run (replicate n Frame) (rollCube (- 1) 0 ?L))" .
qed

text \<open>Before landing no roll is in progress; after landing an idle cube rests on the
  platform, unrotated.\<close>

lemma run_rest:
  "(\<not> landed (run es (init w h)) \<longrightarrow> rolling (run es (init w h)) = None) \<and>
   (landed (run es (init w h)) \<and> rolling (run es (init w h)) = None \<longrightarrow>
      vy (position (run es (init w h))) = targetY \<and>
      rotation (run es (init w h)) = \<lparr> vx = 0, vy = 0, vz = 0 \<rparr>)"
proof (induction es rule: rev_induct)
  case Nil
  show ?case by (simp add: run_Nil init_def)
next
  case (snoc e es)
  let ?s = "run es (init w h)"
  show ?case
  proof (cases e)
    case Frame
    show ?thesis
    proof (cases "landed ?s")
      case False
      with snoc have idle: "rolling ?s = None"
        by simp
      then have eq: "animate ?s = animate_falling ?s"
        by (simp add: animate_def animate_rolling_None animate_falling_fields)
      show ?thesis
        using False idle animate_falling_lands [of ?s]
        by (simp add: run_snoc Frame eq animate_falling_fields animate_falling_landed_iff)
    next
      case True
      then have eq: "animate ?s = animate_rolling ?s"
        by (simp add: animate_def animate_falling_landed)
      show ?thesis
      proof (cases "rolling ?s")
        case None
        with snoc True show ?thesis
          by (simp add: run_snoc Frame eq animate_rolling_None)
      next
        case (Some r)
        show ?thesis
        proof (cases "angle r + rollSpeed < maxAngle")
          case True
          with animate_rolling_continue(1) [OF Some] \<open>landed ?s\<close> show ?thesis
            by (simp add: run_snoc Frame eq animate_rolling_fields)
        next
          case False
          then have "maxAngle \<le> angle r + rollSpeed"
            by simp
          from animate_rolling_complete [OF Some this] \<open>landed ?s\<close> show ?thesis
            by (simp add: run_snoc Frame eq animate_rolling_fields)
        qed
      qed
    qed
  next
    case (KeyDown k)
    show ?thesis
    proof (cases "landed ?s")
      case False
      with snoc show ?thesis
        by (simp add: run_snoc KeyDown keydown_not_landed)
    next
      case True
      with snoc keydown_idle_after [of k ?s] show ?thesis
        by (auto simp add: run_snoc KeyDown keydown_fields)
    qed
  next
    case (Resize m)
    with snoc show ?thesis
      by (simp add: run_snoc handleResize_fields)
  qed
qed

section \<open>The grid invariant holds in every reachable state\<close>

lemma cell_bound:
  "cell c \<Longrightarrow> cell d \<Longrightarrow> \<bar>c + d * cubeSize\<bar> \<le> largeCubeSize / 2 - cubeSize / 2 \<Longrightarrow>
   cell (c + d * cubeSize)"
  by (auto simp add: cell_def cubeSize_def largeCubeSize_def)

lemma on_grid_init: "on_grid (init w h)"
  by (simp add: on_grid_def cell_def init_def largeCubeSize_def)

lemma on_grid_rollCube:
  assumes "on_grid s" and "cell a" and "cell b"
  shows "on_grid (rollCube a b s)"
proof (cases "landed s \<and> rolling s = None \<and>
         \<bar>cubeX s + a * cubeSize\<bar> \<le> largeCubeSize / 2 - cubeSize / 2 \<and>
         \<bar>cubeZ s + b * cubeSize\<bar> \<le> largeCubeSize / 2 - cubeSize / 2")
  case True
  with assms show ?thesis
    by (simp add: rollCube_cases on_grid_def cell_bound)
next
  case False
  have "rollCube a b s = s"
    unfolding rollCube_cases by (rule if_not_P) (rule False)
  with assms(1) show ?thesis
    by simp
qed

lemma on_grid_keydown: "on_grid s \<Longrightarrow> on_grid (keydown k s)"
  by (simp add: keydown_cases on_grid_rollCube cell_def)

lemma on_grid_handleResize: "on_grid s \<Longrightarrow> on_grid (handleResize m s)"
  by (simp add: on_grid_def handleResize_fields split: option.splits)

lemma on_grid_animate:
  assumes "on_grid s"
  shows "on_grid (animate s)"
proof (cases "rolling s")
  case None
  with assms animate_idle [of s] show ?thesis
    by (simp add: on_grid_def)
next
  case (Some r)
  show ?thesis
  proof (cases "angle r + rollSpeed < maxAngle")
    case True
    from animate_continue [OF Some True] assms Some show ?thesis
      by (simp add: on_grid_def)
  next
    case False
    then have "maxAngle \<le> angle r + rollSpeed"
      by simp
    from animate_complete(1-3) [OF Some this] assms Some show ?thesis
      by (simp add: on_grid_def)
  qed
qed

lemma on_grid_run: "on_grid (run es (init w h))"
proof (induction es rule: rev_induct)
  case Nil
  show ?case by (simp add: run_Nil on_grid_init)
next
  case (snoc e es)
  then show ?case
    by (cases e) (simp_all add: run_snoc on_grid_animate on_grid_keydown on_grid_handleResize)
qed

lemma cell_int: "cell c \<Longrightarrow> c \<in> \<int> \<and> \<bar>c\<bar> \<le> largeCubeSize / 2 - cubeSize / 2"
  by (auto simp add: cell_def cubeSize_def largeCubeSize_def)

section \<open>The bounce curve\<close>

text \<open>The four branches of \<open>easeOutBounce\<close> with the constants written as fractions.\<close>

lemma easeOutBounce_alt:
  "easeOutBounce t =
     (if t < 4 / 11 then 121 / 16 * (t * t)
      else if t < 8 / 11 then 121 / 16 * ((t - 6 / 11) * (t - 6 / 11)) + 3 / 4
      else if t < 10 / 11 then 121 / 16 * ((t - 9 / 11) * (t - 9 / 11)) + 15 / 16
      else 121 / 16 * ((t - 21 / 22) * (t - 21 / 22)) + 63 / 64)"
  by (simp add: easeOutBounce_def Let_def)

lemma breakpoints:
  "(1 / 2.75 :: real) = 4 / 11" "(1.5 / 2.75 :: real) = 6 / 11" "(2 / 2.75 :: real) = 8 / 11"
  "(2.25 / 2.75 :: real) = 9 / 11" "(2.5 / 2.75 :: real) = 10 / 11"
  "(2.625 / 2.75 :: real) = 21 / 22"
  by simp_all

text \<open>Two continuous functions that agree at \<open>a\<close>, glued at \<open>a\<close>.\<close>

lemma continuous_on_glue:
  fixes f g :: "real \<Rightarrow> real"
  assumes "continuous_on UNIV f" and "continuous_on UNIV g" and "f a = g a"
  shows "continuous_on UNIV (\<lambda>t. if t < a then f t else g t)"
proof -
  have "continuous_on ({..a} \<union> {a..}) (\<lambda>t. if t < a then f t else g t)"
  proof (rule continuous_on_If)
    show "closed {..a}" and "closed {a..}"
      by simp_all
    show "continuous_on {..a} f"
      using assms(1) by (rule continuous_on_subset) simp
    show "continuous_on {a..} g"
      using assms(2) by (rule continuous_on_subset) simp
    show "f t = g t" if "t \<in> {..a}" and "\<not> t < a" for t
    proof -
      from that have "t = a" by simp
      with assms(3) show ?thesis by simp
    qed
    show "f t = g t" if "t \<in> {a..}" and "t < a" for t
      using that by simp
  qed
  moreover have "{..a} \<union> {a..} = UNIV"
    by auto
  ultimately show ?thesis
    by simp
qed

lemma continuous_on_easeOutBounce: "continuous_on UNIV easeOutBounce"
proof -
  let ?f1 = "\<lambda>t::real. 121 / 16 * (t * t)"
  let ?f2 = "\<lambda>t::real. 121 / 16 * ((t - 6 / 11) * (t - 6 / 11)) + 3 / 4"
  let ?f3 = "\<lambda>t::real. 121 / 16 * ((t - 9 / 11) * (t - 9 / 11)) + 15 / 16"
  let ?f4 = "\<lambda>t::real. 121 / 16 * ((t - 21 / 22) * (t - 21 / 22)) + 63 / 64"
  let ?h3 = "\<lambda>t. if t < 10 / 11 then ?f3 t else ?f4 t"
  let ?h2 = "\<lambda>t. if t < 8 / 11 then ?f2 t else ?h3 t"
  let ?h1 = "\<lambda>t. if t < 4 / 11 then ?f1 t else ?h2 t"
  have f: "continuous_on UNIV ?f1" "continuous_on UNIV ?f2" "continuous_on UNIV ?f3"
    "continuous_on UNIV ?f4"
    by (intro continuous_intros)+
  have c3: "continuous_on UNIV ?h3"
    by (rule continuous_on_glue [OF f(3) f(4)]) simp
  have c2: "continuous_on UNIV ?h2"
    by (rule continuous_on_glue [OF f(2) c3]) simp
  have c1: "continuous_on UNIV ?h1"
    by (rule continuous_on_glue [OF f(1) c2]) simp
  have "easeOutBounce = ?h1"
    by (rule ext) (simp only: easeOutBounce_alt)
  with c1 show ?thesis
    by (simp only:)
qed

lemma isCont_easeOutBounce: "isCont easeOutBounce t"
  using continuous_on_easeOutBounce
  by (simp add: continuous_on_eq_continuous_at)

lemma square_rising: "0 \<le> u \<Longrightarrow> u \<le> v \<Longrightarrow> u * u \<le> v * (v::real)"
  by (rule mult_mono) simp_all

lemma square_falling: "u \<le> v \<Longrightarrow> v \<le> 0 \<Longrightarrow> v * v \<le> u * (u::real)"
  using square_rising [of "- v" "- u"] by simp

section \<open>Roll requests are accepted or ignored\<close>

text \<open>
  Claim C1. \<open>rollCube dx dz\<close> is accepted, that is, it stores the rolling state
  \<open>{dx, dz, angle: 0}\<close> and changes nothing else, exactly when the cube has landed, no
  roll is in progress and the destination cell passes both bounds checks. In every other
  case the state is returned as it was. The grid position is never changed by the call,
  and a rolling state that exists is kept: there is one \<open>rolling\<close> variable, so at most
  one roll is active.
\<close>

theorem rollCube_accepted_iff:
  "(landed s \<and> rolling s = None \<and>
    \<bar>cubeX s + a * cubeSize\<bar> \<le> largeCubeSize / 2 - cubeSize / 2 \<and>
    \<bar>cubeZ s + b * cubeSize\<bar> \<le> largeCubeSize / 2 - cubeSize / 2
    \<longrightarrow> rollCube a b s = s\<lparr>rolling := Some \<lparr> dx = a, dz = b, angle = 0 \<rparr>\<rparr>) \<and>
   (\<not> (landed s \<and> rolling s = None \<and>
    \<bar>cubeX s + a * cubeSize\<bar> \<le> largeCubeSize / 2 - cubeSize / 2 \<and>
    \<bar>cubeZ s + b * cubeSize\<bar> \<le> largeCubeSize / 2 - cubeSize / 2)
    \<longrightarrow> rollCube a b s = s) \<and>
   cubeX (rollCube a b s) = cubeX s \<and> cubeZ (rollCube a b s) = cubeZ s \<and>
   (rolling s \<noteq> None \<longrightarrow> rolling (rollCube a b s) = rolling s)"
  by (auto simp add: rollCube_def Let_def)

theorem rollCube_accepted_iff_witness:
  "(let s = run (replicate 100 Frame) (init 800 600)
    in landed s \<and> rolling s = None \<and> cubeX s = 0 \<and> cubeZ s = - 1 \<and>
       rollCube (- 1) 0 s = s\<lparr>rolling := Some \<lparr> dx = - 1, dz = 0, angle = 0 \<rparr>\<rparr> \<and>
       rollCube 0 (- 1) s = s \<and>
       rollCube 1 0 (s\<lparr>rolling := Some \<lparr> dx = - 1, dz = 0, angle = 0 \<rparr>\<rparr>) =
         s\<lparr>rolling := Some \<lparr> dx = - 1, dz = 0, angle = 0 \<rparr>\<rparr> \<and>
       rollCube (- 1) 0 (init 800 600) = init 800 600)"
proof -
  let ?s = "run (replicate 100 Frame) (init 800 600)"
  let ?r = "\<lparr> dx = - 1, dz = 0, angle = 0 \<rparr>"
  have s: "landed ?s" "rolling ?s = None" "cubeX ?s = 0" "cubeZ ?s = - 1"
    using run_frames_landed [of 800 600] run_frames_idle [of 100 800 600] by simp_all
  have accepted: "rollCube (- 1) 0 ?s = ?s\<lparr>rolling := Some ?r\<rparr>"
    using rollCube_accepted_iff [of ?s "- 1" 0] s
    by (simp add: cubeSize_def largeCubeSize_def)
  have off_platform: "rollCube 0 (- 1) ?s = ?s"
    using rollCube_accepted_iff [of ?s 0 "- 1"] s
    by (simp add: cubeSize_def largeCubeSize_def)
  have busy: "rollCube 1 0 (?s\<lparr>rolling := Some ?r\<rparr>) = ?s\<lparr>rolling := Some ?r\<rparr>"
    using rollCube_accepted_iff [of "?s\<lparr>rolling := Some ?r\<rparr>" 1 0]
    by simp
  have falling: "rollCube (- 1) 0 (init 800 600) = init 800 600"
    using rollCube_accepted_iff [of "init 800 600" "- 1" 0]
    by (simp add: init_def)
  from s accepted off_platform busy falling show ?thesis
    unfolding Let_def by blast
qed

section \<open>Completion of a roll\<close>

text \<open>
  Claim C2. In a frame in which the angle of the roll in progress reaches \<open>maxAngle\<close>
  (the test \<open>rolling.angle >= maxAngle\<close> after the increment), the grid position moves
  by one cell in the direction of the roll, the cube is placed exactly at
  \<open>(cubeX, targetY, cubeZ)\<close> for the new grid position, its rotation is exactly zero and
  \<open>rolling\<close> is \<open>null\<close> again. A roll request after that frame, in any direction, is
  decided by the landed flag and the bounds check at the new grid position alone.
\<close>

theorem roll_completion:
  assumes "rolling s = Some r" and "maxAngle \<le> angle r + rollSpeed"
  shows "cubeX (animate s) = cubeX s + dx r * cubeSize \<and>
         cubeZ (animate s) = cubeZ s + dz r * cubeSize \<and>
         position (animate s) = \<lparr> vx = cubeX (animate s), vy = targetY, vz = cubeZ (animate s) \<rparr> \<and>
         rotation (animate s) = \<lparr> vx = 0, vy = 0, vz = 0 \<rparr> \<and>
         rolling (animate s) = None \<and>
         (\<forall>a b. rollCube a b (animate s) =
            (if landed (animate s) \<and>
                \<bar>cubeX (animate s) + a * cubeSize\<bar> \<le> largeCubeSize / 2 - cubeSize / 2 \<and>
                \<bar>cubeZ (animate s) + b * cubeSize\<bar> \<le> largeCubeSize / 2 - cubeSize / 2
             then (animate s)\<lparr>rolling := Some \<lparr> dx = a, dz = b, angle = 0 \<rparr>\<rparr>
             else animate s))"
proof -
  note fin = animate_complete [OF assms]
  have fresh: "rollCube a b (animate s) =
            (if landed (animate s) \<and>
                \<bar>cubeX (animate s) + a * cubeSize\<bar> \<le> largeCubeSize / 2 - cubeSize / 2 \<and>
                \<bar>cubeZ (animate s) + b * cubeSize\<bar> \<le> largeCubeSize / 2 - cubeSize / 2
             then (animate s)\<lparr>rolling := Some \<lparr> dx = a, dz = b, angle = 0 \<rparr>\<rparr>
             else animate s)" for a b
    using fin(1) by (simp add: rollCube_cases)
  from fin fresh show ?thesis by simp
qed

theorem roll_completion_witness:
  "(let s = run (replicate 9 Frame) (rollCube (- 1) 0 (run (replicate 100 Frame) (init 800 600)))
    in rolling s = Some \<lparr> dx = - 1, dz = 0, angle = 9 * rollSpeed \<rparr> \<and>
       maxAngle \<le> 9 * rollSpeed + rollSpeed \<and>
       cubeX s = 0 \<and> cubeZ s = - 1 \<and>
       cubeX (animate s) = - 1 \<and> cubeZ (animate s) = - 1 \<and>
       position (animate s) = \<lparr> vx = - 1, vy = 1 / 2, vz = - 1 \<rparr> \<and>
       rotation (animate s) = \<lparr> vx = 0, vy = 0, vz = 0 \<rparr> \<and>
       rolling (animate s) = None \<and>
       rollCube 1 0 (animate s) = (animate s)\<lparr>rolling := Some \<lparr> dx = 1, dz = 0, angle = 0 \<rparr>\<rparr> \<and>
       rollCube (- 1) 0 (animate s) = animate s)"
proof -
  let ?s = "run (replicate 9 Frame) (rollCube (- 1) 0 (run (replicate 100 Frame) (init 800 600)))"
  have s: "rolling ?s = Some \<lparr> dx = - 1, dz = 0, angle = 9 * rollSpeed \<rparr>"
    "cubeX ?s = 0" "cubeZ ?s = - 1" "landed ?s"
    using run_frames_mid_roll [of 9 800 600] by simp_all
  have c: "maxAngle \<le> angle \<lparr> dx = - 1, dz = 0, angle = 9 * rollSpeed \<rparr> + rollSpeed"
    by (simp add: maxAngle_def rollSpeed_def)
  have l: "landed (animate ?s)"
    using s(4) by (simp add: animate_landed)
  from roll_completion [OF s(1) c] s c l show ?thesis
    by (simp add: Let_def cubeSize_def largeCubeSize_def targetY_def)
qed

section \<open>The shape of the bounce curve\<close>

text \<open>
  Claim C3, as the code has it. \<open>easeOutBounce\<close> is continuous at its three breakpoints
  \<open>1 / 2.75\<close>, \<open>2 / 2.75\<close> and \<open>2.5 / 2.75\<close>, and returns exactly 1 at \<open>t = 1\<close>. It is
  non-decreasing on the first segment, from 0 to \<open>1 / 2.75\<close>, and on the rising part of
  each later segment: from \<open>1.5 / 2.75\<close> to \<open>2 / 2.75\<close>, from \<open>2.25 / 2.75\<close> to
  \<open>2.5 / 2.75\<close> and from \<open>2.625 / 2.75\<close> to 1. On the first part of each later segment,
  up to these three points, it is non-increasing: this is the bounce.
\<close>

theorem easeOutBounce_shape:
  "isCont easeOutBounce (1 / 2.75) \<and> isCont easeOutBounce (2 / 2.75) \<and>
   isCont easeOutBounce (2.5 / 2.75) \<and>
   easeOutBounce 1 = 1 \<and>
   (\<forall>s t. 0 \<le> s \<and> s \<le> t \<and> t < 1 / 2.75 \<longrightarrow> easeOutBounce s \<le> easeOutBounce t) \<and>
   (\<forall>s t. 1.5 / 2.75 \<le> s \<and> s \<le> t \<and> t < 2 / 2.75 \<longrightarrow> easeOutBounce s \<le> easeOutBounce t) \<and>
   (\<forall>s t. 2.25 / 2.75 \<le> s \<and> s \<le> t \<and> t < 2.5 / 2.75 \<longrightarrow> easeOutBounce s \<le> easeOutBounce t) \<and>
   (\<forall>s t. 2.625 / 2.75 \<le> s \<and> s \<le> t \<and> t \<le> 1 \<longrightarrow> easeOutBounce s \<le> easeOutBounce t) \<and>
   (\<forall>s t. 1 / 2.75 \<le> s \<and> s \<le> t \<and> t \<le> 1.5 / 2.75 \<longrightarrow> easeOutBounce t \<le> easeOutBounce s) \<and>
   (\<forall>s t. 2 / 2.75 \<le> s \<and> s \<le> t \<and> t \<le> 2.25 / 2.75 \<longrightarrow> easeOutBounce t \<le> easeOutBounce s) \<and>
   (\<forall>s t. 2.5 / 2.75 \<le> s \<and> s \<le> t \<and> t \<le> 2.625 / 2.75 \<longrightarrow> easeOutBounce t \<le> easeOutBounce s)"
proof -
  have one: "easeOutBounce 1 = 1"
    by (simp add: easeOutBounce_alt)
  have r1: "easeOutBounce s \<le> easeOutBounce t" if "0 \<le> s" "s \<le> t" "t < 4 / 11" for s t
    using that square_rising [of s t] by (simp add: easeOutBounce_alt)
  have r2: "easeOutBounce s \<le> easeOutBounce t" if "6 / 11 \<le> s" "s \<le> t" "t < 8 / 11" for s t
    using that square_rising [of "s - 6 / 11" "t - 6 / 11"] by (simp add: easeOutBounce_alt)
  have r3: "easeOutBounce s \<le> easeOutBounce t" if "9 / 11 \<le> s" "s \<le> t" "t < 10 / 11" for s t
    using that square_rising [of "s - 9 / 11" "t - 9 / 11"] by (simp add: easeOutBounce_alt)
  have r4: "easeOutBounce s \<le> easeOutBounce t" if "21 / 22 \<le> s" "s \<le> t" "t \<le> 1" for s t
    using that square_rising [of "s - 21 / 22" "t - 21 / 22"] by (simp add: easeOutBounce_alt)
  have f2: "easeOutBounce t \<le> easeOutBounce s" if "4 / 11 \<le> s" "s \<le> t" "t \<le> 6 / 11" for s t
    using that square_falling [of "s - 6 / 11" "t - 6 / 11"] by (simp add: easeOutBounce_alt)
  have f3: "easeOutBounce t \<le> easeOutBounce s" if "8 / 11 \<le> s" "s \<le> t" "t \<le> 9 / 11" for s t
    using that square_falling [of "s - 9 / 11" "t - 9 / 11"] by (simp add: easeOutBounce_alt)
  have f4: "easeOutBounce t \<le> easeOutBounce s" if "10 / 11 \<le> s" "s \<le> t" "t \<le> 21 / 22" for s t
    using that square_falling [of "s - 21 / 22" "t - 21 / 22"] by (simp add: easeOutBounce_alt)
  show ?thesis
    unfolding breakpoints
    by (intro conjI allI impI isCont_easeOutBounce one) (elim conjE, erule (2) r1 r2 r3 r4 f2 f3 f4)+
qed

theorem easeOutBounce_shape_witness:
  "(0::real) \<le> 0 \<and> (0::real) \<le> 1 / 4 \<and> (1 / 4 :: real) < 1 / 2.75 \<and>
   easeOutBounce 0 \<le> easeOutBounce (1 / 4) \<and>
   (1.5 / 2.75 :: real) \<le> 1.75 / 2.75 \<and> (1.75 / 2.75 :: real) < 2 / 2.75 \<and>
   easeOutBounce (1.5 / 2.75) \<le> easeOutBounce (1.75 / 2.75) \<and>
   (2.25 / 2.75 :: real) \<le> 2.375 / 2.75 \<and> (2.375 / 2.75 :: real) < 2.5 / 2.75 \<and>
   easeOutBounce (2.25 / 2.75) \<le> easeOutBounce (2.375 / 2.75) \<and>
   (2.625 / 2.75 :: real) \<le> 2.7 / 2.75 \<and> (2.7 / 2.75 :: real) \<le> 1 \<and>
   easeOutBounce (2.625 / 2.75) \<le> easeOutBounce (2.7 / 2.75) \<and>
   (1 / 2.75 :: real) \<le> 1.25 / 2.75 \<and> (1.25 / 2.75 :: real) \<le> 1.5 / 2.75 \<and>
   easeOutBounce (1.25 / 2.75) \<le> easeOutBounce (1 / 2.75) \<and>
   (2 / 2.75 :: real) \<le> 2.125 / 2.75 \<and> (2.125 / 2.75 :: real) \<le> 2.25 / 2.75 \<and>
   easeOutBounce (2.125 / 2.75) \<le> easeOutBounce (2 / 2.75) \<and>
   (2.5 / 2.75 :: real) \<le> 2.5625 / 2.75 \<and> (2.5625 / 2.75 :: real) \<le> 2.625 / 2.75 \<and>
   easeOutBounce (2.5625 / 2.75) \<le> easeOutBounce (2.5 / 2.75)"
proof -
  note c4 = easeOutBounce_shape [THEN conjunct2, THEN conjunct2, THEN conjunct2, THEN conjunct2]
  note r1 = c4 [THEN conjunct1]
  note r2 = c4 [THEN conjunct2, THEN conjunct1]
  note r3 = c4 [THEN conjunct2, THEN conjunct2, THEN conjunct1]
  note r4 = c4 [THEN conjunct2, THEN conjunct2, THEN conjunct2, THEN conjunct1]
  note c8 = c4 [THEN conjunct2, THEN conjunct2, THEN conjunct2, THEN conjunct2]
  note f2 = c8 [THEN conjunct1]
  note f3 = c8 [THEN conjunct2, THEN conjunct1]
  note f4 = c8 [THEN conjunct2, THEN conjunct2]
  have "easeOutBounce 0 \<le> easeOutBounce (1 / 4)"
    using r1 [rule_format, of 0 "1 / 4"] by simp
  moreover have "easeOutBounce (1.5 / 2.75) \<le> easeOutBounce (1.75 / 2.75)"
    using r2 [rule_format, of "1.5 / 2.75" "1.75 / 2.75"] by simp
  moreover have "easeOutBounce (2.25 / 2.75) \<le> easeOutBounce (2.375 / 2.75)"
    using r3 [rule_format, of "2.25 / 2.75" "2.375 / 2.75"] by simp
  moreover have "easeOutBounce (2.625 / 2.75) \<le> easeOutBounce (2.7 / 2.75)"
    using r4 [rule_format, of "2.625 / 2.75" "2.7 / 2.75"] by simp
  moreover have "easeOutBounce (1.25 / 2.75) \<le> easeOutBounce (1 / 2.75)"
    using f2 [rule_format, of "1 / 2.75" "1.25 / 2.75"] by simp
  moreover have "easeOutBounce (2.125 / 2.75) \<le> easeOutBounce (2 / 2.75)"
    using f3 [rule_format, of "2 / 2.75" "2.125 / 2.75"] by simp
  moreover have "easeOutBounce (2.5625 / 2.75) \<le> easeOutBounce (2.5 / 2.75)"
    using f4 [rule_format, of "2.5 / 2.75" "2.5625 / 2.75"] by simp
  ultimately show ?thesis
    by simp
qed

text \<open>
  The second segment is not non-decreasing as a whole: it starts at the value 1 and
  falls to \<open>0.75\<close> in its middle.
\<close>

theorem easeOutBounce_segment_counterexample:
  "(1 / 2.75 :: real) \<le> 1 / 2.75 \<and> (1 / 2.75 :: real) \<le> 1.5 / 2.75 \<and>
   (1.5 / 2.75 :: real) < 2 / 2.75 \<and>
   easeOutBounce (1 / 2.75) = 1 \<and> easeOutBounce (1.5 / 2.75) = 0.75 \<and>
   \<not> easeOutBounce (1 / 2.75) \<le> easeOutBounce (1.5 / 2.75)"
  by (simp add: easeOutBounce_alt)

section \<open>The pose after landing\<close>

text \<open>
  Claim C4, as the code has it. In every reachable state in which the elapsed time is at
  least \<open>fallDuration\<close> (these are the states after landing) and no roll is in progress,
  the cube's \<open>position.y\<close> is exactly \<open>targetY = cubeSize / 2\<close> and the three components
  of its rotation are exactly zero.
\<close>

theorem landed_idle_pose:
  assumes "fallDuration \<le> time (run es (init w h))" and "rolling (run es (init w h)) = None"
  shows "landed (run es (init w h)) \<and>
         vy (position (run es (init w h))) = targetY \<and> targetY = cubeSize / 2 \<and>
         vx (rotation (run es (init w h))) = 0 \<and>
         vy (rotation (run es (init w h))) = 0 \<and>
         vz (rotation (run es (init w h))) = 0"
proof -
  have "(fallDuration \<le> real (min (frames es) 90) / 60) = (90 \<le> frames es)"
    by (auto simp add: fallDuration_def min_def)
  with assms(1) have "landed (run es (init w h))"
    by (simp add: run_time_landed)
  with run_rest [of es w h] assms(2) show ?thesis
    by (simp add: targetY_def)
qed

theorem landed_idle_pose_witness:
  "fallDuration \<le> time (run (replicate 100 Frame) (init 800 600)) \<and>
   rolling (run (replicate 100 Frame) (init 800 600)) = None \<and>
   vy (position (run (replicate 100 Frame) (init 800 600))) = 1 / 2 \<and>
   rotation (run (replicate 100 Frame) (init 800 600)) = \<lparr> vx = 0, vy = 0, vz = 0 \<rparr>"
proof -
  have t: "fallDuration \<le> time (run (replicate 100 Frame) (init 800 600))"
    by (simp add: run_time_landed frames_replicate fallDuration_def)
  have i: "rolling (run (replicate 100 Frame) (init 800 600)) = None"
    using run_frames_idle [of 100 800 600] by simp
  from landed_idle_pose [OF t i] t i show ?thesis
    by (cases "rotation (run (replicate 100 Frame) (init 800 600))")
      (simp add: targetY_def cubeSize_def)
qed

text \<open>
  Without the condition that no roll is in progress the statement fails: a hundred
  frames land the cube, the key \<open>a\<close> starts a roll to the left, and after the next frame the cube
  is lifted above \<open>targetY\<close> and turned about the z axis, as the roll animation intends.
\<close>

theorem landed_pose_counterexample:
  "landed (run (replicate 100 Frame @ [KeyDown ''a'', Frame]) (init 800 600)) \<and>
   fallDuration \<le> time (run (replicate 100 Frame @ [KeyDown ''a'', Frame]) (init 800 600)) \<and>
   vy (position (run (replicate 100 Frame @ [KeyDown ''a'', Frame]) (init 800 600))) =
     targetY + 1 / 2 * sin (pi / 20 * (19 / 100)) \<and>
   vy (position (run (replicate 100 Frame @ [KeyDown ''a'', Frame]) (init 800 600))) \<noteq> targetY \<and>
   vz (rotation (run (replicate 100 Frame @ [KeyDown ''a'', Frame]) (init 800 600))) =
     pi / 20 * (19 / 100) \<and>
   vz (rotation (run (replicate 100 Frame @ [KeyDown ''a'', Frame]) (init 800 600))) \<noteq> 0"
proof -
  let ?L = "run (replicate 100 Frame) (init 800 600)"
  let ?s = "rollCube (- 1) 0 ?L"
  have split: "run (replicate 100 Frame @ [KeyDown ''a'', Frame]) (init 800 600) = animate ?s"
    by (simp add: run_append run_def keydown_cases)
  have f: "frames (replicate 100 Frame @ [KeyDown ''a'', Frame]) = 101"
    by (simp add: frames_def)
  have s: "rolling ?s = Some \<lparr> dx = - 1, dz = 0, angle = 0 \<rparr>" "cubeX ?s = 0" "cubeZ ?s = - 1"
    and l: "landed ?s"
    using run_frames_mid_roll [of 0 800 600] by (simp_all add: run_Nil)
  have c: "angle \<lparr> dx = - 1, dz = 0, angle = 0 \<rparr> + rollSpeed < maxAngle"
    by (simp add: maxAngle_def rollSpeed_def)
  have m: "min (pi / 20) (pi / 2) = pi / 20"
    by simp
  have eq: "animate ?s = animate_rolling ?s"
    using l by (simp add: animate_def animate_falling_landed)
  have pose: "vy (position (animate ?s)) = targetY + 1 / 2 * sin (pi / 20 * (19 / 100))"
    "vz (rotation (animate ?s)) = pi / 20 * (19 / 100)"
    using animate_rolling_pose(1,2) [OF s(1) c] m
    by (simp_all add: eq cubeSize_def rollSpeed_def maxAngle_def easeOutQuad_def)
  have "0 < sin (pi / 20 * (19 / 100))"
    by (rule sin_gt_zero) (simp_all add: pi_gt_zero)
  with pose(1) have y: "vy (position (animate ?s)) \<noteq> targetY"
    by simp
  have "pi / 20 * (19 / 100) \<noteq> 0"
    by simp
  then have z: "vz (rotation (animate ?s)) \<noteq> 0"
    by (simp only: pose(2)) simp
  have t: "landed (animate ?s)" "fallDuration \<le> time (animate ?s)"
    using run_time_landed [of "replicate 100 Frame @ [KeyDown ''a'', Frame]" 800 600] f
    by (simp_all add: split fallDuration_def)
  from t pose y z show ?thesis
    unfolding split by blast
qed

section \<open>The pose during a roll\<close>

text \<open>
  Claim C5. In every frame with a roll in progress the angle grows by \<open>rollSpeed\<close>. The
  new angle, capped at \<open>maxAngle\<close> (it is taken as it is up to \<open>maxAngle\<close> and replaced by
  \<open>maxAngle\<close> beyond), is scaled by the ease-out-quadratic curve \<open>1 - (1 - t)\<^sup>2\<close>,
  evaluated at the capped angle divided by \<open>maxAngle\<close>; the result is the visual angle
  \<open>theta\<close>. The pose written by the frame, \<open>roll_pose\<close>, places the cube at
  \<open>cubeX + dx * (cubeSize / 2) * (1 - cos theta)\<close>,
  \<open>targetY + (cubeSize / 2) * sin theta\<close>,
  \<open>cubeZ + dz * (cubeSize / 2) * (1 - cos theta)\<close>, with the rotation
  \<open>rotation.z = - theta * dx\<close> for a roll along x and \<open>rotation.x = theta * dz\<close> for a roll
  along z. While the new angle is below \<open>maxAngle\<close> this pose is the state after the frame;
  in the frame in which the new angle reaches \<open>maxAngle\<close> the same pose is computed first
  and the snap to the grid follows it.
\<close>

theorem roll_frame_pose:
  assumes "rolling s = Some r"
  shows "(let a = angle r + rollSpeed;
              capped = min a maxAngle;
              theta = capped * easeOutQuad (capped / maxAngle);
              p = roll_pose (r\<lparr>angle := a\<rparr>) (animate_falling s)
          in capped \<le> maxAngle \<and> capped \<le> a \<and>
             (if a \<le> maxAngle then capped = a else capped = maxAngle) \<and>
             easeOutQuad (capped / maxAngle) = 1 - (1 - capped / maxAngle)\<^sup>2 \<and>
             rolling p = Some (r\<lparr>angle := a\<rparr>) \<and>
             position p =
               \<lparr> vx = cubeX s + dx r * (cubeSize / 2) * (1 - cos theta),
                 vy = targetY + cubeSize / 2 * sin theta,
                 vz = cubeZ s + dz r * (cubeSize / 2) * (1 - cos theta) \<rparr> \<and>
             (dx r \<noteq> 0 \<longrightarrow> vz (rotation p) = - theta * dx r) \<and>
             (dx r = 0 \<and> dz r \<noteq> 0 \<longrightarrow> vx (rotation p) = theta * dz r) \<and>
             (a < maxAngle \<longrightarrow> animate s = p) \<and>
             (maxAngle \<le> a \<longrightarrow>
                animate s =
                  p\<lparr>cubeX := cubeX s + dx r * cubeSize, cubeZ := cubeZ s + dz r * cubeSize,
                    position := \<lparr> vx = cubeX s + dx r * cubeSize, vy = targetY,
                                  vz = cubeZ s + dz r * cubeSize \<rparr>,
                    rotation := \<lparr> vx = 0, vy = 0, vz = 0 \<rparr>,
                    rolling := None\<rparr>))"
proof -
  let ?a = "angle r + rollSpeed"
  let ?r1 = "r\<lparr>angle := ?a\<rparr>"
  let ?p = "roll_pose ?r1 (animate_falling s)"
  have r: "rolling (animate_falling s) = Some r"
    using assms by (simp add: animate_falling_fields)
  have q: "easeOutQuad t = 1 - (1 - t)\<^sup>2" for t
    by (simp add: easeOutQuad_def power2_eq_square)
  have cap: "min ?a maxAngle \<le> maxAngle" "min ?a maxAngle \<le> ?a"
    "(if ?a \<le> maxAngle then min ?a maxAngle = ?a else min ?a maxAngle = maxAngle)"
    by simp_all
  have run: "animate s =
     (if maxAngle \<le> ?a
      then ?p\<lparr>cubeX := cubeX s + dx r * cubeSize, cubeZ := cubeZ s + dz r * cubeSize,
              position := \<lparr> vx = cubeX s + dx r * cubeSize, vy = targetY,
                            vz = cubeZ s + dz r * cubeSize \<rparr>,
              rotation := \<lparr> vx = 0, vy = 0, vz = 0 \<rparr>,
              rolling := None\<rparr>
      else ?p)"
    unfolding animate_def animate_rolling_Some [OF r]
    by (simp add: animate_falling_fields)
  have fields: "rolling ?p = Some ?r1"
    "position ?p =
       \<lparr> vx = cubeX s + dx r * (cubeSize / 2) *
                (1 - cos (min ?a maxAngle * easeOutQuad (min ?a maxAngle / maxAngle))),
         vy = targetY + cubeSize / 2 *
                sin (min ?a maxAngle * easeOutQuad (min ?a maxAngle / maxAngle)),
         vz = cubeZ s + dz r * (cubeSize / 2) *
                (1 - cos (min ?a maxAngle * easeOutQuad (min ?a maxAngle / maxAngle))) \<rparr>"
    by (simp_all add: roll_pose_fields animate_falling_fields)
  have rot: "dx r \<noteq> 0 \<Longrightarrow> vz (rotation ?p) =
       - (min ?a maxAngle * easeOutQuad (min ?a maxAngle / maxAngle)) * dx r"
    "dx r = 0 \<Longrightarrow> dz r \<noteq> 0 \<Longrightarrow> vx (rotation ?p) =
       min ?a maxAngle * easeOutQuad (min ?a maxAngle / maxAngle) * dz r"
    using roll_pose_rotation [of ?r1 "animate_falling s"] by simp_all
  show ?thesis
    unfolding Let_def
    by (intro conjI impI cap q fields rot) (simp_all add: run)
qed

theorem roll_frame_pose_witness:
  "(let L = run (replicate 100 Frame) (init 800 600);
        s = rollCube (- 1) 0 L;
        u = rollCube 0 1 L;
        f = run (replicate 9 Frame) s;
        c = L\<lparr>rolling := Some \<lparr> dx = - 1, dz = 0, angle = maxAngle \<rparr>\<rparr>;
        theta = pi / 20 * (19 / 100)
    in rolling s = Some \<lparr> dx = - 1, dz = 0, angle = 0 \<rparr> \<and>
       rolling (animate s) = Some \<lparr> dx = - 1, dz = 0, angle = rollSpeed \<rparr> \<and>
       position (animate s) =
         \<lparr> vx = 0 + - 1 * (1 / 2) * (1 - cos theta), vy = 1 / 2 + 1 / 2 * sin theta,
           vz = - 1 + 0 * (1 / 2) * (1 - cos theta) \<rparr> \<and>
       vz (rotation (animate s)) = theta \<and>
       rolling u = Some \<lparr> dx = 0, dz = 1, angle = 0 \<rparr> \<and>
       rolling (animate u) = Some \<lparr> dx = 0, dz = 1, angle = rollSpeed \<rparr> \<and>
       position (animate u) =
         \<lparr> vx = 0 + 0 * (1 / 2) * (1 - cos theta), vy = 1 / 2 + 1 / 2 * sin theta,
           vz = - 1 + 1 * (1 / 2) * (1 - cos theta) \<rparr> \<and>
       vx (rotation (animate u)) = theta \<and>
       rolling f = Some \<lparr> dx = - 1, dz = 0, angle = 9 * rollSpeed \<rparr> \<and>
       min (9 * rollSpeed + rollSpeed) maxAngle = pi / 2 \<and>
       position (roll_pose \<lparr> dx = - 1, dz = 0, angle = 9 * rollSpeed + rollSpeed \<rparr>
                   (animate_falling f)) =
         \<lparr> vx = 0 + - 1 * (1 / 2) * (1 - cos (pi / 2)), vy = 1 / 2 + 1 / 2 * sin (pi / 2),
           vz = - 1 + 0 * (1 / 2) * (1 - cos (pi / 2)) \<rparr> \<and>
       vz (rotation (roll_pose \<lparr> dx = - 1, dz = 0, angle = 9 * rollSpeed + rollSpeed \<rparr>
                       (animate_falling f))) = pi / 2 \<and>
       position (animate f) = \<lparr> vx = - 1, vy = 1 / 2, vz = - 1 \<rparr> \<and>
       rolling (animate f) = None \<and>
       rolling c = Some \<lparr> dx = - 1, dz = 0, angle = maxAngle \<rparr> \<and>
       maxAngle < maxAngle + rollSpeed \<and>
       min (maxAngle + rollSpeed) maxAngle = pi / 2 \<and>
       position (roll_pose \<lparr> dx = - 1, dz = 0, angle = maxAngle + rollSpeed \<rparr>
                   (animate_falling c)) =
         \<lparr> vx = 0 + - 1 * (1 / 2) * (1 - cos (pi / 2)), vy = 1 / 2 + 1 / 2 * sin (pi / 2),
           vz = - 1 + 0 * (1 / 2) * (1 - cos (pi / 2)) \<rparr>)"
proof -
  let ?L = "run (replicate 100 Frame) (init 800 600)"
  let ?s = "rollCube (- 1) 0 ?L"
  let ?u = "rollCube 0 1 ?L"
  let ?f = "run (replicate 9 Frame) ?s"
  let ?c = "?L\<lparr>rolling := Some \<lparr> dx = - 1, dz = 0, angle = maxAngle \<rparr>\<rparr>"
  have L: "landed ?L" "rolling ?L = None" "cubeX ?L = 0" "cubeZ ?L = - 1"
    using run_frames_landed [of 800 600] run_frames_idle [of 100 800 600] by simp_all
  have s: "rolling ?s = Some \<lparr> dx = - 1, dz = 0, angle = 0 \<rparr>" "cubeX ?s = 0" "cubeZ ?s = - 1"
    using L by (simp_all add: rollCube_cases cubeSize_def largeCubeSize_def)
  have u: "rolling ?u = Some \<lparr> dx = 0, dz = 1, angle = 0 \<rparr>" "cubeX ?u = 0" "cubeZ ?u = - 1"
    using L by (simp_all add: rollCube_cases cubeSize_def largeCubeSize_def)
  have f: "rolling ?f = Some \<lparr> dx = - 1, dz = 0, angle = 9 * rollSpeed \<rparr>"
    "cubeX ?f = 0" "cubeZ ?f = - 1"
    using run_frames_mid_roll [of 9 800 600] by simp_all
  have c: "rolling ?c = Some \<lparr> dx = - 1, dz = 0, angle = maxAngle \<rparr>"
    "cubeX ?c = 0" "cubeZ ?c = - 1"
    using L by simp_all
  have m: "min (pi / 20) (pi / 2) = pi / 20" "9 * rollSpeed + rollSpeed = pi / 2"
    "min (pi / 2 + pi / 20) (pi / 2) = pi / 2" "maxAngle < maxAngle + rollSpeed"
    by (simp_all add: rollSpeed_def maxAngle_def)
  have ps: "rolling (animate ?s) = Some \<lparr> dx = - 1, dz = 0, angle = rollSpeed \<rparr> \<and>
       position (animate ?s) =
         \<lparr> vx = 0 + - 1 * (1 / 2) * (1 - cos (pi / 20 * (19 / 100))),
           vy = 1 / 2 + 1 / 2 * sin (pi / 20 * (19 / 100)),
           vz = - 1 + 0 * (1 / 2) * (1 - cos (pi / 20 * (19 / 100))) \<rparr> \<and>
       vz (rotation (animate ?s)) = pi / 20 * (19 / 100)"
    using roll_frame_pose [OF s(1)] s m(1)
    by (simp add: Let_def cubeSize_def targetY_def rollSpeed_def maxAngle_def easeOutQuad_def
        power2_eq_square)
  have pu: "rolling (animate ?u) = Some \<lparr> dx = 0, dz = 1, angle = rollSpeed \<rparr> \<and>
       position (animate ?u) =
         \<lparr> vx = 0 + 0 * (1 / 2) * (1 - cos (pi / 20 * (19 / 100))),
           vy = 1 / 2 + 1 / 2 * sin (pi / 20 * (19 / 100)),
           vz = - 1 + 1 * (1 / 2) * (1 - cos (pi / 20 * (19 / 100))) \<rparr> \<and>
       vx (rotation (animate ?u)) = pi / 20 * (19 / 100)"
    using roll_frame_pose [OF u(1)] u m(1)
    by (simp add: Let_def cubeSize_def targetY_def rollSpeed_def maxAngle_def easeOutQuad_def
        power2_eq_square)
  have pf: "min (9 * rollSpeed + rollSpeed) maxAngle = pi / 2 \<and>
       position (roll_pose \<lparr> dx = - 1, dz = 0, angle = 9 * rollSpeed + rollSpeed \<rparr>
                   (animate_falling ?f)) =
         \<lparr> vx = 0 + - 1 * (1 / 2) * (1 - cos (pi / 2)), vy = 1 / 2 + 1 / 2 * sin (pi / 2),
           vz = - 1 + 0 * (1 / 2) * (1 - cos (pi / 2)) \<rparr> \<and>
       vz (rotation (roll_pose \<lparr> dx = - 1, dz = 0, angle = 9 * rollSpeed + rollSpeed \<rparr>
                       (animate_falling ?f))) = pi / 2 \<and>
       position (animate ?f) = \<lparr> vx = - 1, vy = 1 / 2, vz = - 1 \<rparr> \<and>
       rolling (animate ?f) = None"
    using roll_frame_pose [OF f(1)] f
    by (simp add: Let_def m(2) cubeSize_def targetY_def maxAngle_def easeOutQuad_def)
  have pc: "min (maxAngle + rollSpeed) maxAngle = pi / 2 \<and>
       position (roll_pose \<lparr> dx = - 1, dz = 0, angle = maxAngle + rollSpeed \<rparr>
                   (animate_falling ?c)) =
         \<lparr> vx = 0 + - 1 * (1 / 2) * (1 - cos (pi / 2)), vy = 1 / 2 + 1 / 2 * sin (pi / 2),
           vz = - 1 + 0 * (1 / 2) * (1 - cos (pi / 2)) \<rparr>"
    using roll_frame_pose [OF c(1)] c m(3,4)
    by (simp add: Let_def cubeSize_def targetY_def maxAngle_def rollSpeed_def easeOutQuad_def)
  from s(1) u(1) f(1) c(1) m(4) ps pu pf pc show ?thesis
    unfolding Let_def by blast
qed

section \<open>The scenario of two rolls to the left\<close>

text \<open>
  Claim C6. The initial grid position is \<open>(0, - largeCubeSize / 3) = (0, - 1)\<close> and the
  bound \<open>largeCubeSize / 2 - cubeSize / 2\<close> is 1. For a landed, idle cube at that grid
  position, \<open>rollCube (- 1) 0\<close> is accepted; after the ten frames of the roll the grid
  position is \<open>(- 1, - 1)\<close>; a second \<open>rollCube (- 1) 0\<close> is rejected, since
  \<open>\<bar>cubeX + dx * cubeSize\<bar> = 2\<close> exceeds the bound, and leaves the grid position at
  \<open>(- 1, - 1)\<close>.
\<close>

theorem left_roll_scenario:
  assumes "landed s" and "rolling s = None" and "cubeX s = 0" and "cubeZ s = - 1"
  shows "cubeX (init w h) = 0 \<and> cubeZ (init w h) = - largeCubeSize / 3 \<and>
         - largeCubeSize / 3 = - 1 \<and> largeCubeSize / 2 - cubeSize / 2 = 1 \<and>
         rollCube (- 1) 0 s = s\<lparr>rolling := Some \<lparr> dx = - 1, dz = 0, angle = 0 \<rparr>\<rparr> \<and>
         (let s1 = run (replicate 10 Frame) (rollCube (- 1) 0 s)
          in rolling s1 = None \<and> cubeX s1 = - 1 \<and> cubeZ s1 = - 1 \<and>
             \<bar>cubeX s1 + - 1 * cubeSize\<bar> = 2 \<and>
             rollCube (- 1) 0 s1 = s1 \<and>
             cubeX (rollCube (- 1) 0 s1) = - 1 \<and> cubeZ (rollCube (- 1) 0 s1) = - 1)"
proof -
  let ?r = "\<lparr> dx = - 1, dz = 0, angle = 0 \<rparr>"
  let ?s1 = "run (replicate 9 Frame @ [Frame]) (rollCube (- 1) 0 s)"
  have acc: "rollCube (- 1) 0 s = s\<lparr>rolling := Some ?r\<rparr>"
    using assms by (simp add: rollCube_accept cubeSize_def largeCubeSize_def)
  then have r: "rolling (rollCube (- 1) 0 s) = Some ?r"
    by simp
  have a: "angle ?r = 0"
    by simp
  have f: "frames (replicate 9 Frame) = 9"
    by (rule frames_replicate)
  have ten: "replicate 10 Frame = replicate 9 Frame @ [Frame]"
    by (simp add: numeral_eq_Suc)
  have s1: "rolling ?s1 = None" "cubeX ?s1 = - 1" "cubeZ ?s1 = - 1"
    using roll_finish(1-3) [OF r a f] assms by (simp_all add: rollCube_fields cubeSize_def)
  have out: "largeCubeSize / 2 - cubeSize / 2 < \<bar>cubeX ?s1 + - 1 * cubeSize\<bar>"
    using s1 by (simp add: cubeSize_def largeCubeSize_def)
  have rej: "rollCube (- 1) 0 ?s1 = ?s1"
    by (rule rollCube_out_of_bounds) (use out in simp)
  show ?thesis
    unfolding ten Let_def
    using acc s1 rej by (simp add: init_def cubeSize_def largeCubeSize_def)
qed

theorem left_roll_scenario_witness:
  "(let s = run (replicate 100 Frame) (init 800 600);
        s1 = run (replicate 10 Frame) (rollCube (- 1) 0 s)
    in landed s \<and> rolling s = None \<and> cubeX s = 0 \<and> cubeZ s = - 1 \<and>
       rollCube (- 1) 0 s = s\<lparr>rolling := Some \<lparr> dx = - 1, dz = 0, angle = 0 \<rparr>\<rparr> \<and>
       rolling s1 = None \<and> cubeX s1 = - 1 \<and> cubeZ s1 = - 1 \<and>
       rollCube (- 1) 0 s1 = s1)"
proof -
  let ?L = "run (replicate 100 Frame) (init 800 600)"
  have L: "landed ?L" "rolling ?L = None" "cubeX ?L = 0" "cubeZ ?L = - 1"
    using run_frames_landed [of 800 600] run_frames_idle [of 100 800 600] by simp_all
  from left_roll_scenario [OF L, of 800 600] L show ?thesis
    unfolding Let_def by blast
qed

section \<open>The fall clock and the landed flag\<close>



section \<open>Resize\<close>

text \<open>
  Claim C8. For a host element of \<open>w\<close> by \<open>h\<close> pixels with \<open>h\<close> not zero, the resize handler
  sets the camera's aspect ratio to \<open>w / h\<close> and the renderer's size to \<open>(w, h)\<close> and
  changes nothing else: position, rotation, grid position, landed flag, elapsed time and
  rolling state of the falling cube, and the rotation of the spinning cube, are as before.
\<close>

theorem resize_sets_view:
  assumes "h \<noteq> 0"
  shows "handleResize (Some (w, h)) s = s\<lparr>aspect := real w / real h, rendererSize := (w, h)\<rparr> \<and>
         aspect (handleResize (Some (w, h)) s) = real w / real h \<and>
         rendererSize (handleResize (Some (w, h)) s) = (w, h) \<and>
         position (handleResize (Some (w, h)) s) = position s \<and>
         rotation (handleResize (Some (w, h)) s) = rotation s \<and>
         cubeX (handleResize (Some (w, h)) s) = cubeX s \<and>
         cubeZ (handleResize (Some (w, h)) s) = cubeZ s \<and>
         landed (handleResize (Some (w, h)) s) = landed s \<and>
         time (handleResize (Some (w, h)) s) = time s \<and>
         rolling (handleResize (Some (w, h)) s) = rolling s \<and>
         spin_handleResize (Some (w, h)) t =
           t\<lparr>spin_aspect := real w / real h, spin_rendererSize := (w, h)\<rparr> \<and>
         spin_aspect (spin_handleResize (Some (w, h)) t) = real w / real h \<and>
         spin_rendererSize (spin_handleResize (Some (w, h)) t) = (w, h) \<and>
         spin_rotation (spin_handleResize (Some (w, h)) t) = spin_rotation t"
  by (simp add: handleResize_def spin_handleResize_def Let_def)

theorem resize_sets_view_witness:
  "(1024::nat) \<noteq> 0 \<and>
   handleResize (Some (1280, 1024)) (init 800 600) =
     (init 800 600)\<lparr>aspect := 5 / 4, rendererSize := (1280, 1024)\<rparr> \<and>
   spin_handleResize (Some (1280, 1024))
       \<lparr> spin_rotation = \<lparr> vx = 1 / 100, vy = 1 / 100, vz = 0 \<rparr>, spin_aspect = 4 / 3,
         spin_rendererSize = (800, 600) \<rparr> =
     \<lparr> spin_rotation = \<lparr> vx = 1 / 100, vy = 1 / 100, vz = 0 \<rparr>, spin_aspect = 5 / 4,
       spin_rendererSize = (1280, 1024) \<rparr>"
proof -
  have h: "(1024::nat) \<noteq> 0"
    by simp
  from resize_sets_view [OF h, of 1280 "init 800 600"
      "\<lparr> spin_rotation = \<lparr> vx = 1 / 100, vy = 1 / 100, vz = 0 \<rparr>, spin_aspect = 4 / 3,
         spin_rendererSize = (800, 600) \<rparr>"]
  show ?thesis
    by simp
qed

section \<open>The grid position stays on the platform\<close>

text \<open>
  Claim C9. After any sequence of frames, key presses and resizes from the initial state,
  \<open>cubeX\<close> and \<open>cubeZ\<close> are integers (multiples of \<open>cubeSize = 1\<close>, starting from
  \<open>(0, - 1)\<close>) and their absolute values are at most
  \<open>largeCubeSize / 2 - cubeSize / 2 = 1\<close>: the grid position never leaves the three by
  three cells of the platform.
\<close>

theorem grid_position_on_platform:
  "cubeX (run es (init w h)) \<in> \<int> \<and> cubeZ (run es (init w h)) \<in> \<int> \<and>
   \<bar>cubeX (run es (init w h))\<bar> \<le> largeCubeSize / 2 - cubeSize / 2 \<and>
   \<bar>cubeZ (run es (init w h))\<bar> \<le> largeCubeSize / 2 - cubeSize / 2 \<and>
   largeCubeSize / 2 - cubeSize / 2 = 1 \<and> cubeSize = 1 \<and>
   cubeX (init w h) = 0 \<and> cubeZ (init w h) = - 1"
  using on_grid_run [of es w h]
  by (simp add: on_grid_def cell_int) (simp add: cubeSize_def largeCubeSize_def init_def)

theorem grid_position_on_platform_witness:
  "(let s = run (replicate 100 Frame @ [KeyDown ''a''] @ replicate 10 Frame @ [KeyDown ''a'', Frame,
               KeyDown ''w'', Frame]) (init 800 600)
    in cubeX s \<in> \<int> \<and> cubeZ s \<in> \<int> \<and> \<bar>cubeX s\<bar> \<le> 1 \<and> \<bar>cubeZ s\<bar> \<le> 1)"
  using grid_position_on_platform [of "replicate 100 Frame @ [KeyDown ''a''] @ replicate 10 Frame @
      [KeyDown ''a'', Frame, KeyDown ''w'', Frame]" 800 600]
  by (simp add: Let_def)

section \<open>Every roll ends\<close>

text \<open>
  Claim C10. An accepted roll starts at angle 0 and gains \<open>rollSpeed = pi / 20\<close> in every
  frame. After fewer than ten frames it is still in progress, with the angle equal to the
  number of frames times \<open>rollSpeed\<close>; in the tenth frame the angle reaches
  \<open>maxAngle = pi / 2 = 10 * rollSpeed\<close>, the completion branch runs, \<open>rolling\<close> is cleared
  and the grid position has moved by one cell. Key presses and resizes between the frames
  do not delay this. The arithmetic is that of the real numbers.
\<close>

theorem roll_terminates:
  assumes "landed s" and "rolling s = None"
    and "\<bar>cubeX s + a * cubeSize\<bar> \<le> largeCubeSize / 2 - cubeSize / 2"
    and "\<bar>cubeZ s + b * cubeSize\<bar> \<le> largeCubeSize / 2 - cubeSize / 2"
  shows "rollSpeed = pi / 20 \<and> maxAngle = pi / 2 \<and> 10 * rollSpeed = maxAngle \<and>
         (frames es < 10 \<longrightarrow>
            rolling (run es (rollCube a b s)) =
              Some \<lparr> dx = a, dz = b, angle = real (frames es) * rollSpeed \<rparr>) \<and>
         (frames es = 9 \<longrightarrow>
            rolling (run (es @ [Frame]) (rollCube a b s)) = None \<and>
            cubeX (run (es @ [Frame]) (rollCube a b s)) = cubeX s + a * cubeSize \<and>
            cubeZ (run (es @ [Frame]) (rollCube a b s)) = cubeZ s + b * cubeSize)"
proof -
  let ?r = "\<lparr> dx = a, dz = b, angle = 0 \<rparr>"
  have r: "rolling (rollCube a b s) = Some ?r"
    using assms by (simp add: rollCube_accept)
  have a: "angle ?r = 0"
    by simp
  have "rolling (run es (rollCube a b s)) =
          Some \<lparr> dx = a, dz = b, angle = real (frames es) * rollSpeed \<rparr>" if "frames es < 10"
    using roll_progress [OF r a that] by simp
  moreover have "rolling (run (es @ [Frame]) (rollCube a b s)) = None \<and>
            cubeX (run (es @ [Frame]) (rollCube a b s)) = cubeX s + a * cubeSize \<and>
            cubeZ (run (es @ [Frame]) (rollCube a b s)) = cubeZ s + b * cubeSize" if "frames es = 9"
    using roll_finish(1-3) [OF r a that] by (simp add: rollCube_fields)
  moreover have "10 * rollSpeed = maxAngle"
    by (simp add: rollSpeed_def maxAngle_def)
  ultimately show ?thesis
    by (simp add: rollSpeed_def maxAngle_def)
qed

theorem roll_terminates_witness:
  "(let s = rollCube (- 1) 0 (run (replicate 100 Frame) (init 800 600))
    in rolling s = Some \<lparr> dx = - 1, dz = 0, angle = 0 \<rparr> \<and>
       rolling (run [Frame, Frame, Frame, KeyDown ''d'', Frame, Frame, Frame, Frame, Frame, Frame] s)
         = Some \<lparr> dx = - 1, dz = 0, angle = 9 * rollSpeed \<rparr> \<and>
       rolling (run ([Frame, Frame, Frame, KeyDown ''d'', Frame, Frame, Frame, Frame, Frame, Frame]
                     @ [Frame]) s) = None \<and>
       cubeX (run ([Frame, Frame, Frame, KeyDown ''d'', Frame, Frame, Frame, Frame, Frame, Frame]
                     @ [Frame]) s) = - 1 \<and>
       cubeZ (run ([Frame, Frame, Frame, KeyDown ''d'', Frame, Frame, Frame, Frame, Frame, Frame]
                     @ [Frame]) s) = - 1)"
proof -
  let ?L = "run (replicate 100 Frame) (init 800 600)"
  have L: "landed ?L" "rolling ?L = None" "cubeX ?L = 0" "cubeZ ?L = - 1"
    using run_frames_landed [of 800 600] run_frames_idle [of 100 800 600] by simp_all
  have bx: "\<bar>cubeX ?L + - 1 * cubeSize\<bar> \<le> largeCubeSize / 2 - cubeSize / 2"
    using L by (simp add: cubeSize_def largeCubeSize_def)
  have bz: "\<bar>cubeZ ?L + 0 * cubeSize\<bar> \<le> largeCubeSize / 2 - cubeSize / 2"
    using L by (simp add: cubeSize_def largeCubeSize_def)
  have f: "frames [Frame, Frame, Frame, KeyDown ''d'', Frame, Frame, Frame, Frame, Frame, Frame] = 9"
    by (simp add: frames_def)
  from roll_terminates [OF L(1,2) bx bz,
      of "[Frame, Frame, Frame, KeyDown ''d'', Frame, Frame, Frame, Frame, Frame, Frame]"] f L
  show ?thesis
    by (simp add: Let_def run_frames_left_roll cubeSize_def)
qed

end
